theory Spec2Isabelle
  imports Main "HOL-Library.Multiset"
begin

section \<open>Strings\<close>

text \<open>
  A Python \<open>str\<close> is compared code point by code point. The model keeps every label and
  message as the list of the bytes of its UTF-8 encoding; the encoding is injective, so
  two strings are equal in the model exactly when they are equal in Python. The four
  characters of the tables that lie outside ASCII are written out as their bytes.
\<close>

abbreviation GE_SIGN :: string where
  "GE_SIGN \<equiv> [CHR 0xE2, CHR 0x89, CHR 0xA5]"

abbreviation DEGREE :: string where
  "DEGREE \<equiv> [CHR 0xC2, CHR 0xB0]"

abbreviation EM_DASH :: string where
  "EM_DASH \<equiv> [CHR 0xE2, CHR 0x80, CHR 0x94]"

abbreviation SIREN :: string where
  "SIREN \<equiv> [CHR 0xF0, CHR 0x9F, CHR 0x9A, CHR 0xA8]"

abbreviation high_temperature :: string where
  "high_temperature \<equiv> ''high temperature ('' @ GE_SIGN @ ''38'' @ DEGREE @ ''C)''"

section \<open>Symptom checker data\<close>

definition SYMPTOMS :: "string list" where
  "SYMPTOMS =
    [''fever'', ''headache'', ''chills'', ''vomiting'', ''diarrhea'', ''abdominal pain'',
     ''cough'', ''sore throat'', ''runny nose'', ''difficulty breathing'',
     ''chest pain'', ''fatigue'', ''loss of appetite'', ''joint pain'',
     ''rash'', ''dizziness'', high_temperature, ''bloody stool'',
     ''shortness of breath'', ''sweating'', ''nausea'', ''weight loss'', ''night sweats'',
     ''persistent cough'', ''frequent urination'', ''excessive thirst'', ''stiffness'',
     ''swelling'']"

text \<open>
  \<open>RED_FLAGS\<close> is a dict literal; a Python dict iterates in insertion order, so the model
  is the association list of its items in the order they are written. The keys are
  pairwise different, as the keys of a dict are.
\<close>

definition RED_FLAGS :: "(string \<times> string) list" where
  "RED_FLAGS =
    [(''chest pain'', ''Chest pain can indicate a heart or lung emergency.''),
     (''difficulty breathing'', ''Breathing difficulty is an emergency sign.''),
     (''shortness of breath'', ''Shortness of breath may require urgent care.''),
     (''bloody stool'', ''Blood in stool can be serious; seek urgent care.''),
     (high_temperature, ''High fever with other symptoms may need urgent care.''),
     (''persistent vomiting'', ''Risk of dehydration; seek care if severe.''),
     (''severe abdominal pain'', ''Could indicate appendicitis or another emergency.''),
     (''sudden weakness or slurred speech'',
        ''Possible stroke '' @ EM_DASH @ '' seek emergency care immediately.'')]"

record profile =
  weights :: "(string \<times> int) list"
  advice :: string
  threshold :: int

definition CONDITIONS :: "(string \<times> profile) list" where
  "CONDITIONS =
    [(''Malaria'',
      \<lparr>weights = [(''fever'', 3), (''chills'', 2), (''headache'', 2), (''fatigue'', 1),
                  (high_temperature, 2), (''vomiting'', 1)],
       advice = ''Possible malaria. Rest, hydrate, and seek testing/treatment at a clinic.'',
       threshold = 4\<rparr>),
     (''Typhoid'',
      \<lparr>weights = [(''fever'', 2), (''abdominal pain'', 2), (''headache'', 1), (''diarrhea'', 2),
                  (''loss of appetite'', 1), (''vomiting'', 1)],
       advice = ''Possible typhoid. Drink clean water and see a doctor for testing.'',
       threshold = 4\<rparr>),
     (''Common Cold / Flu'',
      \<lparr>weights = [(''cough'', 1), (''sore throat'', 2), (''runny nose'', 2), (''fatigue'', 1),
                  (''headache'', 1), (''fever'', 1)],
       advice = ''Likely a cold or flu. Rest, fluids, and over-the-counter symptomatic care.'',
       threshold = 3\<rparr>),
     (''COVID-19 (possible)'',
      \<lparr>weights = [(''fever'', 2), (''cough'', 2), (''sore throat'', 1), (''loss of appetite'', 1),
                  (''fatigue'', 2), (''difficulty breathing'', 3)],
       advice = ''Symptoms may match a respiratory infection such as COVID-19. Isolate and seek testing if available.'',
       threshold = 4\<rparr>),
     (''Lower Respiratory Infection / Asthma'',
      \<lparr>weights = [(''cough'', 2), (''difficulty breathing'', 3), (''chest pain'', 2),
                  (''shortness of breath'', 3), (''fatigue'', 1)],
       advice = ''Possible chest infection or asthma exacerbation. Seek medical help if breathing is hard.'',
       threshold = 4\<rparr>),
     (''Gastroenteritis / Food Poisoning'',
      \<lparr>weights = [(''vomiting'', 2), (''diarrhea'', 2), (''abdominal pain'', 1), (''nausea'', 1),
                  (high_temperature, 1)],
       advice = ''Possible stomach infection or food poisoning. Hydrate with ORS; seek care if persistent.'',
       threshold = 3\<rparr>),
     (''Dengue (consider regionally)'',
      \<lparr>weights = [(''fever'', 2), (''headache'', 1), (''joint pain'', 2), (''rash'', 1),
                  (high_temperature, 2)],
       advice = ''Dengue possible'' @ EM_DASH @ ''avoid NSAIDs, hydrate, and seek evaluation.'',
       threshold = 4\<rparr>),
     (''Diabetes (possible indicators)'',
      \<lparr>weights = [(''frequent urination'', 3), (''excessive thirst'', 3), (''fatigue'', 1),
                  (''weight loss'', 2)],
       advice = ''Symptoms suggesting diabetes. See a clinic for blood sugar testing.'',
       threshold = 4\<rparr>),
     (''Tuberculosis (possible)'',
      \<lparr>weights = [(''persistent cough'', 3), (''weight loss'', 2), (''night sweats'', 2),
                  (''fever'', 1)],
       advice = ''Persistent cough with weight loss/night sweats may suggest TB. Seek testing at a clinic.'',
       threshold = 4\<rparr>),
     (''Arthritis (possible)'',
      \<lparr>weights = [(''joint pain'', 2), (''stiffness'', 2), (''swelling'', 2)],
       advice = ''Joint pain and stiffness may indicate arthritis or inflammatory condition. See a clinician for evaluation.'',
       threshold = 3\<rparr>),
     (''Heart Attack ('' @ SIREN @ '' EMERGENCY)'',
      \<lparr>weights = [(''chest pain'', 4), (''shortness of breath'', 4), (''sweating'', 2)],
       advice = ''Severe chest pain with breathlessness and sweating could indicate a heart attack. Call emergency services immediately.'',
       threshold = 6\<rparr>),
     (''Stroke ('' @ SIREN @ '' EMERGENCY suggestion)'',
      \<lparr>weights = [(''sudden weakness or slurred speech'', 5), (''dizziness'', 2),
                  (''sudden severe headache'', 3)],
       advice = ''Sudden weakness or slurred speech may indicate stroke. Seek emergency care immediately.'',
       threshold = 5\<rparr>)]"

section \<open>score_conditions\<close>

text \<open>
  \<open>int(w/2)\<close>: the true quotient, truncated toward zero. For an integer of magnitude
  below \<open>2^53\<close> the float quotient \<open>w/2\<close> is exact, so the result is the integer
  quotient of the magnitudes with the sign of \<open>w\<close>.
\<close>

definition int_half :: "int \<Rightarrow> int" where
  "int_half w = (if 0 \<le> w then w div 2 else - ((- w) div 2))"

text \<open>
  The body of the inner loop, for one item \<open>(s, w)\<close> of a weight table: the direct match,
  and in its \<open>else\<close> branch the three \<open>if\<close> statements, one after the other.
\<close>

definition weight_step :: "string set \<Rightarrow> string \<Rightarrow> int \<Rightarrow> int \<Rightarrow> int" where
  "weight_step sel s w score =
     (if s \<in> sel then score + w
      else
        (let score1 = (if s = ''shortness of breath'' \<and> ''difficulty breathing'' \<in> sel
                       then score + w else score);
             score2 = (if s = ''difficulty breathing'' \<and> ''shortness of breath'' \<in> sel
                       then score1 + w else score1);
             score3 = (if s = ''persistent cough'' \<and> ''cough'' \<in> sel
                          \<and> ''persistent cough'' \<notin> sel
                       then score2 + int_half w else score2)
         in score3))"

fun weights_loop :: "string set \<Rightarrow> (string \<times> int) list \<Rightarrow> int \<Rightarrow> int" where
  "weights_loop sel [] score = score"
| "weights_loop sel ((s, w) # rest) score = weights_loop sel rest (weight_step sel s w score)"

type_synonym scored = "string \<times> int \<times> string \<times> int"

fun conditions_loop :: "string set \<Rightarrow> (string \<times> profile) list \<Rightarrow> scored list \<Rightarrow> scored list" where
  "conditions_loop sel [] results = results"
| "conditions_loop sel ((cond, spec) # rest) results =
     conditions_loop sel rest
       (results @ [(cond, weights_loop sel (weights spec) 0, advice spec, threshold spec)])"

text \<open>
  \<open>list.sort(key=..., reverse=True)\<close>: a stable sort that keeps the original order of
  elements with equal keys also when reversed. The list is reversed, sorted stably into
  ascending order of the key (here by insertion), and reversed again.
\<close>

definition sort_reverse :: "('a \<Rightarrow> int) \<Rightarrow> 'a list \<Rightarrow> 'a list" where
  "sort_reverse key xs = rev (sort_key key (rev xs))"

definition score_conditions :: "string list \<Rightarrow> scored list" where
  "score_conditions selected =
     (let sel = set selected;
          results = conditions_loop sel CONDITIONS []
      in sort_reverse (\<lambda>x. fst (snd x)) results)"

section \<open>red_flag_messages\<close>

definition flag_step :: "string set \<Rightarrow> string \<Rightarrow> string \<Rightarrow> string list \<Rightarrow> string list" where
  "flag_step sel key msg msgs =
     (let msgs1 = (if key \<in> sel then msgs @ [msg] else msgs);
          msgs2 = (if key = ''persistent vomiting'' \<and> ''vomiting'' \<in> sel
                   then msgs1 @ [msg] else msgs1);
          msgs3 = (if key = ''severe abdominal pain'' \<and> ''abdominal pain'' \<in> sel
                   then msgs2 @ [msg] else msgs2);
          msgs4 = (if key = ''sudden weakness or slurred speech''
                   then (if ''dizziness'' \<in> sel \<or> ''slurred speech'' \<in> sel
                            \<or> ''sudden weakness'' \<in> sel
                         then msgs3 @ [msg] else msgs3)
                   else msgs3)
      in msgs4)"

fun flags_loop :: "string set \<Rightarrow> (string \<times> string) list \<Rightarrow> string list \<Rightarrow> string list" where
  "flags_loop sel [] msgs = msgs"
| "flags_loop sel ((key, msg) # rest) msgs = flags_loop sel rest (flag_step sel key msg msgs)"

abbreviation COMBINATION :: string where
  "COMBINATION \<equiv> ''Combination of chest pain and breathing difficulty '' @ EM_DASH
     @ '' this may be life-threatening.''"

text \<open>
  \<open>list(dict.fromkeys(msgs))\<close>: the keys are inserted one by one into a dict that starts
  empty; a key that is already there keeps its place. The dict is modelled by the list
  of its keys in insertion order.
\<close>

fun dict_fromkeys :: "'a list \<Rightarrow> 'a list \<Rightarrow> 'a list" where
  "dict_fromkeys [] d = d"
| "dict_fromkeys (k # ks) d = dict_fromkeys ks (if k \<in> set d then d else d @ [k])"

text \<open>
  The list \<open>msgs\<close> as it stands before the last line of \<open>red_flag_messages\<close>: the
  messages appended by the loop over \<open>RED_FLAGS\<close>, then the message of the manual check
  for chest pain with a breathing symptom.
\<close>

definition fired_messages :: "string set \<Rightarrow> string list" where
  "fired_messages sel =
     (let msgs = flags_loop sel RED_FLAGS []
      in if ''chest pain'' \<in> sel
            \<and> (''difficulty breathing'' \<in> sel \<or> ''shortness of breath'' \<in> sel)
         then msgs @ [COMBINATION] else msgs)"

definition red_flag_messages :: "string list \<Rightarrow> string list" where
  "red_flag_messages selected =
     (let sel = set selected
      in dict_fromkeys (fired_messages sel) [])"

section \<open>Notions used to state the properties\<close>

text \<open>The score that a result list carries for the condition named \<open>cond\<close>.\<close>

definition score_for :: "string \<Rightarrow> scored list \<Rightarrow> int option" where
  "score_for cond results = map_option fst (map_of results cond)"

text \<open>What one item of a weight table adds to a score.\<close>

definition credit :: "string set \<Rightarrow> string \<times> int \<Rightarrow> int" where
  "credit sel = (\<lambda>(s, w). weight_step sel s w 0)"

text \<open>The tuple that the outer loop appends for one item of \<open>CONDITIONS\<close>.\<close>

definition scored_of :: "string set \<Rightarrow> string \<times> profile \<Rightarrow> scored" where
  "scored_of sel =
     (\<lambda>(cond, spec). (cond, weights_loop sel (weights spec) 0, advice spec, threshold spec))"

text \<open>
  The labels that the tables and the two functions compare against although \<open>SYMPTOMS\<close>
  does not list them: three keys of \<open>RED_FLAGS\<close>, the two labels tested by name in
  \<open>red_flag_messages\<close>, and two keys of the Stroke weight table.
\<close>

abbreviation UNLISTED :: "string set" where
  "UNLISTED \<equiv> {''persistent vomiting'', ''severe abdominal pain'',
     ''sudden weakness or slurred speech'', ''slurred speech'', ''sudden weakness'',
     ''sudden severe headache''}"

text \<open>
  Deduplication as the specification words it: every element stays at its first
  occurrence, and its later occurrences are dropped.
\<close>

fun keep_first :: "'a list \<Rightarrow> 'a list" where
  "keep_first [] = []"
| "keep_first (x # xs) = x # keep_first (filter (\<lambda>y. y \<noteq> x) xs)"

section \<open>The loops in closed form\<close>

lemma weight_step_add: "weight_step sel s w score = score + weight_step sel s w 0"
  by (simp add: weight_step_def Let_def)

lemma weights_loop_sum: "weights_loop sel ws score = score + sum_list (map (credit sel) ws)"
proof (induction ws arbitrary: score)
  case Nil
  show ?case by simp
next
  case (Cons a ws)
  obtain s w where a: "a = (s, w)" by (cases a)
  show ?case
    using Cons.IH [of "weight_step sel s w score"] weight_step_add [of sel s w score]
    by (simp add: a credit_def)
qed

lemma conditions_loop_map: "conditions_loop sel cs results = results @ map (scored_of sel) cs"
proof (induction cs arbitrary: results)
  case Nil
  show ?case by simp
next
  case (Cons c cs)
  obtain cond spec where c: "c = (cond, spec)" by (cases c)
  show ?case by (simp add: c Cons.IH scored_of_def)
qed

lemma score_conditions_sort:
  "score_conditions selected =
     sort_reverse (\<lambda>x. fst (snd x)) (map (scored_of (set selected)) CONDITIONS)"
  by (simp add: score_conditions_def conditions_loop_map)

section \<open>The reversed stable sort\<close>

lemma mset_sort_reverse: "mset (sort_reverse key xs) = mset xs"
  by (simp add: sort_reverse_def)

lemma set_sort_reverse: "set (sort_reverse key xs) = set xs"
  by (simp add: sort_reverse_def)

lemma sorted_sort_reverse: "sorted_wrt (\<lambda>a b. key b \<le> key a) (sort_reverse key xs)"
proof -
  have "sorted (map key (sort_key key (rev xs)))" by (rule sorted_sort_key)
  then have "sorted_wrt (\<lambda>a b. key a \<le> key b) (sort_key key (rev xs))"
    by (simp add: sorted_map)
  then show ?thesis
    by (simp add: sort_reverse_def sorted_wrt_rev)
qed

lemma stable_sort_reverse:
  "filter (\<lambda>y. key y = k) (sort_reverse key xs) = filter (\<lambda>y. key y = k) xs"
  by (simp add: sort_reverse_def rev_filter [symmetric] sort_key_stable)

section \<open>Facts about the tables\<close>

lemma distinct_names: "distinct (map fst CONDITIONS)"
  by (simp add: CONDITIONS_def)

lemma weights_positive: "\<forall>c \<in> set CONDITIONS. \<forall>e \<in> set (weights (snd c)). 0 < snd e"
  by (simp add: CONDITIONS_def)

section \<open>Looking up a score in the result\<close>

lemma names_scored: "map fst (map (scored_of sel) cs) = map fst cs"
  by (induction cs) (auto simp: scored_of_def)

lemma map_of_scored:
  "map_of (map (scored_of sel) cs) cond =
     map_option (\<lambda>spec. (weights_loop sel (weights spec) 0, advice spec, threshold spec))
       (map_of cs cond)"
  by (induction cs) (auto simp: scored_of_def)

lemma score_for_score_conditions:
  "score_for cond (score_conditions selected) =
     map_option (\<lambda>spec. weights_loop (set selected) (weights spec) 0) (map_of CONDITIONS cond)"
proof -
  let ?us = "map (scored_of (set selected)) CONDITIONS"
  let ?rs = "score_conditions selected"
  have d: "distinct (map fst ?us)" unfolding names_scored by (rule distinct_names)
  have "mset (map fst ?rs) = mset (map fst ?us)"
    unfolding score_conditions_sort by (simp only: mset_map mset_sort_reverse)
  then have d': "distinct (map fst ?rs)" using d by (metis mset_eq_imp_distinct_iff)
  have "set ?rs = set ?us" by (simp add: score_conditions_sort set_sort_reverse)
  then have "map_of ?rs = map_of ?us" using map_of_inject_set [OF d' d] by simp
  then show ?thesis by (simp add: score_for_def map_of_scored option.map_comp comp_def)
qed

lemma score_for_profile:
  assumes "c \<in> set CONDITIONS"
  shows "score_for (fst c) (score_conditions selected)
       = Some (\<Sum>e\<leftarrow>weights (snd c). weight_step (set selected) (fst e) (snd e) 0)"
proof -
  from assms have "(fst c, snd c) \<in> set CONDITIONS" by simp
  with distinct_names have "map_of CONDITIONS (fst c) = Some (snd c)"
    by (rule map_of_is_SomeI)
  then have "score_for (fst c) (score_conditions selected)
      = Some (weights_loop (set selected) (weights (snd c)) 0)"
    by (simp only: score_for_score_conditions option.map)
  also have "weights_loop (set selected) (weights (snd c)) 0
      = (\<Sum>e\<leftarrow>weights (snd c). weight_step (set selected) (fst e) (snd e) 0)"
    by (simp add: weights_loop_sum credit_def split_def)
  finally show ?thesis .
qed

section \<open>Deduplication\<close>

lemma set_dict_fromkeys: "set (dict_fromkeys ks d) = set d \<union> set ks"
  by (induction ks arbitrary: d) auto

lemma distinct_dict_fromkeys: "distinct d \<Longrightarrow> distinct (dict_fromkeys ks d)"
  by (induction ks arbitrary: d) auto

lemma set_keep_first: "set (keep_first xs) = set xs"
  by (induction xs rule: keep_first.induct) auto

lemma dict_fromkeys_keep_first:
  "dict_fromkeys ks d = d @ keep_first (filter (\<lambda>k. k \<notin> set d) ks)"
proof (induction ks arbitrary: d)
  case Nil
  show ?case by simp
next
  case (Cons k ks)
  show ?case
  proof (cases "k \<in> set d")
    case True
    then show ?thesis by (simp add: Cons.IH)
  next
    case False
    have "filter (\<lambda>y. y \<noteq> k) (filter (\<lambda>k. k \<notin> set d) ks) = filter (\<lambda>j. j \<notin> set (d @ [k])) ks"
      by (induction ks) auto
    with False show ?thesis by (simp add: Cons.IH)
  qed
qed

lemma distinct_keep_first: "distinct (keep_first xs)"
  by (induction xs rule: keep_first.induct) (auto simp: set_keep_first)

lemma length_sort_reverse: "length (sort_reverse key xs) = length xs"
  by (simp add: sort_reverse_def)

section \<open>The loop over the red flags\<close>

lemma flag_step_grows: "set msgs \<subseteq> set (flag_step sel key msg msgs)"
  by (auto simp: flag_step_def Let_def)

lemma flags_loop_grows: "set msgs \<subseteq> set (flags_loop sel rf msgs)"
proof (induction rf arbitrary: msgs)
  case Nil
  show ?case by simp
next
  case (Cons e rf)
  obtain key msg where e: "e = (key, msg)" by (cases e)
  show ?case
    using flag_step_grows [of msgs sel key msg] Cons.IH [of "flag_step sel key msg msgs"]
    by (auto simp: e)
qed

lemma flags_loop_direct:
  "(key, msg) \<in> set rf \<Longrightarrow> key \<in> sel \<Longrightarrow> msg \<in> set (flags_loop sel rf msgs)"
proof (induction rf arbitrary: msgs)
  case Nil
  then show ?case by simp
next
  case (Cons e rf)
  obtain k m where e: "e = (k, m)" by (cases e)
  show ?case
  proof (cases "e = (key, msg)")
    case True
    with Cons.prems have "msg \<in> set (flag_step sel k m msgs)"
      by (simp add: e flag_step_def Let_def)
    then show ?thesis
      using flags_loop_grows [of "flag_step sel k m msgs" sel rf] by (auto simp: e)
  next
    case False
    with Cons.prems have "(key, msg) \<in> set rf" by simp
    then show ?thesis using Cons.IH Cons.prems(2) by (simp add: e)
  qed
qed

lemma flags_loop_dizziness:
  "(''sudden weakness or slurred speech'', msg) \<in> set rf \<Longrightarrow> ''dizziness'' \<in> sel
     \<Longrightarrow> msg \<in> set (flags_loop sel rf msgs)"
proof (induction rf arbitrary: msgs)
  case Nil
  then show ?case by simp
next
  case (Cons e rf)
  obtain k m where e: "e = (k, m)" by (cases e)
  show ?case
  proof (cases "e = (''sudden weakness or slurred speech'', msg)")
    case True
    with Cons.prems have "msg \<in> set (flag_step sel k m msgs)"
      by (simp add: e flag_step_def Let_def)
    then show ?thesis
      using flags_loop_grows [of "flag_step sel k m msgs" sel rf] by (auto simp: e)
  next
    case False
    with Cons.prems have "(''sudden weakness or slurred speech'', msg) \<in> set rf" by simp
    then show ?thesis using Cons.IH Cons.prems(2) by (simp add: e)
  qed
qed

lemma set_red_flag_messages:
  "set (red_flag_messages selected) = set (fired_messages (set selected))"
  by (simp add: red_flag_messages_def set_dict_fromkeys)

lemma fired_messages_loop:
  "set (flags_loop sel RED_FLAGS []) \<subseteq> set (fired_messages sel)"
  by (auto simp: fired_messages_def Let_def)

section \<open>Monotonicity of the inner loop\<close>

lemma credit_cases:
  "weight_step A s w 0 = (if s \<in> A then w
     else if s = ''shortness of breath'' \<and> ''difficulty breathing'' \<in> A then w
     else if s = ''difficulty breathing'' \<and> ''shortness of breath'' \<in> A then w
     else if s = ''persistent cough'' \<and> ''cough'' \<in> A then int_half w else 0)"
  by (simp add: weight_step_def Let_def)

lemma int_half_bounds: "0 \<le> w \<Longrightarrow> 0 \<le> int_half w \<and> int_half w \<le> w"
  by (simp add: int_half_def)

lemma cascade_mono:
  fixes w h :: int
  assumes "0 \<le> w" and "0 \<le> h" and "h \<le> w"
    and "p \<longrightarrow> p'" and "a \<longrightarrow> a'" and "b \<longrightarrow> b'" and "c \<longrightarrow> c'"
  shows "(if p then w else if q \<and> a then w else if r \<and> b then w else if t \<and> c then h else 0)
       \<le> (if p' then w else if q \<and> a' then w else if r \<and> b' then w else if t \<and> c' then h else 0)"
  using assms by auto

lemma weight_step_mono:
  assumes "0 \<le> w" and "A \<subseteq> B"
  shows "weight_step A s w 0 \<le> weight_step B s w 0"
  unfolding credit_cases
proof (rule cascade_mono)
  show "0 \<le> w" by (rule assms(1))
  show "0 \<le> int_half w" using int_half_bounds [OF assms(1)] by simp
  show "int_half w \<le> w" using int_half_bounds [OF assms(1)] by simp
  show "s \<in> A \<longrightarrow> s \<in> B" using assms(2) by blast
  show "''difficulty breathing'' \<in> A \<longrightarrow> ''difficulty breathing'' \<in> B" using assms(2) by blast
  show "''shortness of breath'' \<in> A \<longrightarrow> ''shortness of breath'' \<in> B" using assms(2) by blast
  show "''cough'' \<in> A \<longrightarrow> ''cough'' \<in> B" using assms(2) by blast
qed

lemma weights_loop_mono:
  assumes "\<forall>e \<in> set ws. 0 \<le> snd e" and "A \<subseteq> B"
  shows "weights_loop A ws 0 \<le> weights_loop B ws 0"
proof -
  have "credit A e \<le> credit B e" if "e \<in> set ws" for e
    using assms that weight_step_mono [of "snd e" A B "fst e"]
    by (simp add: credit_def case_prod_beta)
  then have "sum_list (map (credit A) ws) \<le> sum_list (map (credit B) ws)"
    by (rule sum_list_mono)
  then show ?thesis by (simp add: weights_loop_sum)
qed

lemma profile_of_name:
  assumes "cond \<in> set (map fst cs)"
  shows "\<exists>spec. map_of cs cond = Some spec \<and> (cond, spec) \<in> set cs"
proof -
  from assms have "map_of cs cond \<noteq> None" by (simp add: map_of_eq_None_iff)
  then obtain spec where "map_of cs cond = Some spec" by blast
  then show ?thesis by (blast dest: map_of_SomeD)
qed

section \<open>Labels that no table mentions\<close>

lemma weight_labels_known:
  "\<forall>c \<in> set CONDITIONS. \<forall>e \<in> set (weights (snd c)). fst e \<in> set SYMPTOMS \<union> UNLISTED"
  by (simp add: CONDITIONS_def SYMPTOMS_def)

lemma flag_keys_known: "\<forall>e \<in> set RED_FLAGS. fst e \<in> set SYMPTOMS \<union> UNLISTED"
  by (simp add: RED_FLAGS_def SYMPTOMS_def)

lemma compared_labels_known:
  "''difficulty breathing'' \<in> set SYMPTOMS" "''shortness of breath'' \<in> set SYMPTOMS"
  "''cough'' \<in> set SYMPTOMS" "''persistent cough'' \<in> set SYMPTOMS"
  "''vomiting'' \<in> set SYMPTOMS" "''abdominal pain'' \<in> set SYMPTOMS"
  "''dizziness'' \<in> set SYMPTOMS" "''chest pain'' \<in> set SYMPTOMS"
  by (simp_all add: SYMPTOMS_def)

lemma compared_labels_unlisted:
  "''slurred speech'' \<in> UNLISTED" "''sudden weakness'' \<in> UNLISTED"
  by simp_all

lemma weight_step_agree:
  assumes "(s \<in> A) = (s \<in> B)"
    and "(''difficulty breathing'' \<in> A) = (''difficulty breathing'' \<in> B)"
    and "(''shortness of breath'' \<in> A) = (''shortness of breath'' \<in> B)"
    and "(''cough'' \<in> A) = (''cough'' \<in> B)"
    and "(''persistent cough'' \<in> A) = (''persistent cough'' \<in> B)"
  shows "weight_step A s w score = weight_step B s w score"
  unfolding weight_step_def assms ..

lemma weights_loop_agree:
  assumes "\<forall>e \<in> set ws. (fst e \<in> A) = (fst e \<in> B)"
    and "(''difficulty breathing'' \<in> A) = (''difficulty breathing'' \<in> B)"
    and "(''shortness of breath'' \<in> A) = (''shortness of breath'' \<in> B)"
    and "(''cough'' \<in> A) = (''cough'' \<in> B)"
    and "(''persistent cough'' \<in> A) = (''persistent cough'' \<in> B)"
  shows "weights_loop A ws score = weights_loop B ws score"
  using assms(1)
proof (induction ws arbitrary: score)
  case Nil
  show ?case by simp
next
  case (Cons e ws)
  obtain s w where e: "e = (s, w)" by (cases e)
  from Cons.prems have "(s \<in> A) = (s \<in> B)" by (simp add: e)
  then have "weight_step A s w score = weight_step B s w score"
    using assms(2-5) by (rule weight_step_agree)
  moreover from Cons.prems have "\<forall>e \<in> set ws. (fst e \<in> A) = (fst e \<in> B)" by simp
  ultimately show ?case using Cons.IH by (simp add: e)
qed

lemma flag_step_agree:
  assumes "(key \<in> A) = (key \<in> B)"
    and "(''vomiting'' \<in> A) = (''vomiting'' \<in> B)"
    and "(''abdominal pain'' \<in> A) = (''abdominal pain'' \<in> B)"
    and "(''dizziness'' \<in> A) = (''dizziness'' \<in> B)"
    and "(''slurred speech'' \<in> A) = (''slurred speech'' \<in> B)"
    and "(''sudden weakness'' \<in> A) = (''sudden weakness'' \<in> B)"
  shows "flag_step A key msg msgs = flag_step B key msg msgs"
  unfolding flag_step_def assms ..

lemma flags_loop_agree:
  assumes "\<forall>e \<in> set rf. (fst e \<in> A) = (fst e \<in> B)"
    and "(''vomiting'' \<in> A) = (''vomiting'' \<in> B)"
    and "(''abdominal pain'' \<in> A) = (''abdominal pain'' \<in> B)"
    and "(''dizziness'' \<in> A) = (''dizziness'' \<in> B)"
    and "(''slurred speech'' \<in> A) = (''slurred speech'' \<in> B)"
    and "(''sudden weakness'' \<in> A) = (''sudden weakness'' \<in> B)"
  shows "flags_loop A rf msgs = flags_loop B rf msgs"
  using assms(1)
proof (induction rf arbitrary: msgs)
  case Nil
  show ?case by simp
next
  case (Cons e rf)
  obtain key msg where e: "e = (key, msg)" by (cases e)
  from Cons.prems have "(key \<in> A) = (key \<in> B)" by (simp add: e)
  then have "flag_step A key msg msgs = flag_step B key msg msgs"
    using assms(2-6) by (rule flag_step_agree)
  moreover from Cons.prems have "\<forall>e \<in> set rf. (fst e \<in> A) = (fst e \<in> B)" by simp
  ultimately show ?case using Cons.IH by (simp add: e)
qed

lemma member_insert_other: "k \<noteq> x \<Longrightarrow> (k \<in> insert x S) = (k \<in> S)"
  by simp

lemma other_than_outsider: "x \<notin> P \<Longrightarrow> x \<notin> Q \<Longrightarrow> k \<in> P \<union> Q \<Longrightarrow> k \<noteq> x"
  by blast

section \<open>Properties of score_conditions and red_flag_messages\<close>

text \<open>
  C2: for every input, also the empty one, \<open>score_conditions\<close> returns exactly one entry
  for each profile of \<open>CONDITIONS\<close>: the names in the table are pairwise different, the
  result has as many entries as the table, and as a multiset it consists of the tuple of
  each profile, carrying the raw score computed by the inner loop, the advisory text and
  the threshold. No entry is dropped for a score below its threshold.
\<close>

theorem score_conditions_one_entry_per_profile:
  "distinct (map fst CONDITIONS)
   \<and> length (score_conditions selected) = length CONDITIONS
   \<and> mset (score_conditions selected) =
       mset (map (\<lambda>(cond, spec).
                    (cond, weights_loop (set selected) (weights spec) 0, advice spec, threshold spec))
               CONDITIONS)"
proof -
  have "length (score_conditions selected) = length CONDITIONS"
    by (simp add: score_conditions_sort length_sort_reverse)
  moreover have "mset (score_conditions selected) = mset (map (scored_of (set selected)) CONDITIONS)"
    by (simp only: score_conditions_sort mset_sort_reverse)
  ultimately show ?thesis
    using distinct_names by (simp add: scored_of_def)
qed

text \<open>
  C4: the breathing bridge gives full credit in both directions: an entry for "shortness of
  breath" adds its full weight when the input contains "difficulty breathing", and an entry
  for "difficulty breathing" adds its full weight when the input contains "shortness of
  breath". The score that \<open>score_conditions\<close> returns for a profile is the sum of what each
  entry of its weight table adds, so the bridged weight is part of the returned score.
  The inputs \<open>{"difficulty breathing"}\<close> and \<open>{"shortness of breath"}\<close> give the same result
  list; the three profiles that reference either label score 3 (COVID-19), 6 (Lower
  Respiratory Infection / Asthma) and 4 (Heart Attack) on both.
\<close>

theorem breathing_bridge_symmetric:
  "(\<forall>sel w score. ''difficulty breathing'' \<in> sel \<longrightarrow>
        weight_step sel ''shortness of breath'' w score = score + w)
   \<and> (\<forall>sel w score. ''shortness of breath'' \<in> sel \<longrightarrow>
        weight_step sel ''difficulty breathing'' w score = score + w)
   \<and> score_conditions [''difficulty breathing''] = score_conditions [''shortness of breath'']
   \<and> (\<forall>selected c. c \<in> set CONDITIONS \<longrightarrow>
        score_for (fst c) (score_conditions selected)
          = Some (\<Sum>e\<leftarrow>weights (snd c). weight_step (set selected) (fst e) (snd e) 0))
   \<and> score_for ''COVID-19 (possible)'' (score_conditions [''difficulty breathing'']) = Some 3
   \<and> score_for ''COVID-19 (possible)'' (score_conditions [''shortness of breath'']) = Some 3
   \<and> score_for ''Lower Respiratory Infection / Asthma''
        (score_conditions [''difficulty breathing'']) = Some 6
   \<and> score_for ''Lower Respiratory Infection / Asthma''
        (score_conditions [''shortness of breath'']) = Some 6
   \<and> score_for (''Heart Attack ('' @ SIREN @ '' EMERGENCY)'')
        (score_conditions [''difficulty breathing'']) = Some 4
   \<and> score_for (''Heart Attack ('' @ SIREN @ '' EMERGENCY)'')
        (score_conditions [''shortness of breath'']) = Some 4"
proof (intro conjI allI impI)
  fix sel :: "string set" and w score :: int
  assume "''difficulty breathing'' \<in> sel"
  then show "weight_step sel ''shortness of breath'' w score = score + w"
    by (simp add: weight_step_def)
next
  fix sel :: "string set" and w score :: int
  assume "''shortness of breath'' \<in> sel"
  then show "weight_step sel ''difficulty breathing'' w score = score + w"
    by (simp add: weight_step_def)
next
  show "score_conditions [''difficulty breathing''] = score_conditions [''shortness of breath'']"
    by code_simp
next
  fix selected :: "string list" and c :: "string \<times> profile"
  assume "c \<in> set CONDITIONS"
  then show "score_for (fst c) (score_conditions selected)
          = Some (\<Sum>e\<leftarrow>weights (snd c). weight_step (set selected) (fst e) (snd e) 0)"
    by (rule score_for_profile)
next
  show "score_for ''COVID-19 (possible)'' (score_conditions [''difficulty breathing'']) = Some 3"
    by code_simp
  show "score_for ''COVID-19 (possible)'' (score_conditions [''shortness of breath'']) = Some 3"
    by code_simp
  show "score_for ''Lower Respiratory Infection / Asthma''
        (score_conditions [''difficulty breathing'']) = Some 6"
    by code_simp
  show "score_for ''Lower Respiratory Infection / Asthma''
        (score_conditions [''shortness of breath'']) = Some 6"
    by code_simp
  show "score_for (''Heart Attack ('' @ SIREN @ '' EMERGENCY)'')
        (score_conditions [''difficulty breathing'']) = Some 4"
    by code_simp
  show "score_for (''Heart Attack ('' @ SIREN @ '' EMERGENCY)'')
        (score_conditions [''shortness of breath'']) = Some 4"
    by code_simp
qed

theorem breathing_bridge_symmetric_witness:
  "''difficulty breathing'' \<in> set [''difficulty breathing'']
   \<and> weight_step (set [''difficulty breathing'']) ''shortness of breath'' 4 0 = 4
   \<and> ''shortness of breath'' \<in> set [''shortness of breath'']
   \<and> weight_step (set [''shortness of breath'']) ''difficulty breathing'' 3 0 = 3
   \<and> (''Heart Attack ('' @ SIREN @ '' EMERGENCY)'',
        \<lparr>weights = [(''chest pain'', 4), (''shortness of breath'', 4), (''sweating'', 2)],
         advice = ''Severe chest pain with breathlessness and sweating could indicate a heart attack. Call emergency services immediately.'',
         threshold = 6\<rparr>) \<in> set CONDITIONS
   \<and> score_for (''Heart Attack ('' @ SIREN @ '' EMERGENCY)'')
        (score_conditions [''difficulty breathing''])
       = Some (\<Sum>e\<leftarrow>[(''chest pain'', 4), (''shortness of breath'', 4), (''sweating'', 2)].
                 weight_step (set [''difficulty breathing'']) (fst e) (snd e) 0)"
proof -
  have a: "''difficulty breathing'' \<in> set [''difficulty breathing'']" by simp
  have b: "''shortness of breath'' \<in> set [''shortness of breath'']" by simp
  have c: "(''Heart Attack ('' @ SIREN @ '' EMERGENCY)'',
        \<lparr>weights = [(''chest pain'', 4), (''shortness of breath'', 4), (''sweating'', 2)],
         advice = ''Severe chest pain with breathlessness and sweating could indicate a heart attack. Call emergency services immediately.'',
         threshold = 6\<rparr>) \<in> set CONDITIONS"
    by (simp add: CONDITIONS_def)
  note t = breathing_bridge_symmetric
  note t1 = t [THEN conjunct1, rule_format, OF a, of 4 0]
  note t2 = t [THEN conjunct2, THEN conjunct1, rule_format, OF b, of 3 0]
  note t4 = t [THEN conjunct2, THEN conjunct2, THEN conjunct2, THEN conjunct1, rule_format,
      OF c, of "[''difficulty breathing'']"]
  have d: "weight_step (set [''difficulty breathing'']) ''shortness of breath'' 4 0 = 4"
    using t1 by simp
  have e: "weight_step (set [''shortness of breath'']) ''difficulty breathing'' 3 0 = 3"
    using t2 by simp
  have f: "score_for (''Heart Attack ('' @ SIREN @ '' EMERGENCY)'')
        (score_conditions [''difficulty breathing''])
       = Some (\<Sum>e\<leftarrow>[(''chest pain'', 4), (''shortness of breath'', 4), (''sweating'', 2)].
                 weight_step (set [''difficulty breathing'']) (fst e) (snd e) 0)"
    using t4 by (simp only: fst_conv snd_conv profile.simps)
  show ?thesis by (rule conjI [OF a conjI [OF d conjI [OF b conjI [OF e conjI [OF c f]]]]])
qed

text \<open>
  C5: when the input contains "cough" but not "persistent cough", an entry for "persistent
  cough" of weight \<open>w\<close> adds exactly \<open>w\<close> halved and truncated toward zero; for every such
  entry in \<open>CONDITIONS\<close> (whose weights are positive) that is \<open>w div 2\<close>. For the input
  \<open>{"cough"}\<close> the Tuberculosis profile scores 1.
\<close>

theorem cough_partial_credit:
  "(\<forall>sel w score. ''cough'' \<in> sel \<and> ''persistent cough'' \<notin> sel \<longrightarrow>
        weight_step sel ''persistent cough'' w score = score + sgn w * (\<bar>w\<bar> div 2))
   \<and> (\<forall>selected. ''cough'' \<in> set selected \<and> ''persistent cough'' \<notin> set selected \<longrightarrow>
        (\<forall>c \<in> set CONDITIONS. \<forall>e \<in> set (weights (snd c)).
            fst e = ''persistent cough'' \<longrightarrow> credit (set selected) e = snd e div 2))
   \<and> score_for ''Tuberculosis (possible)'' (score_conditions [''cough'']) = Some 1"
proof -
  have gen: "weight_step sel ''persistent cough'' w score = score + sgn w * (\<bar>w\<bar> div 2)"
    if "''cough'' \<in> sel \<and> ''persistent cough'' \<notin> sel" for sel w score
    using that by (simp add: weight_step_def int_half_def sgn_if)
  have tab: "credit (set selected) e = snd e div 2"
    if "''cough'' \<in> set selected \<and> ''persistent cough'' \<notin> set selected"
      and "c \<in> set CONDITIONS" and "e \<in> set (weights (snd c))" and "fst e = ''persistent cough''"
    for selected c e
  proof -
    obtain s w where e: "e = (s, w)" by (cases e)
    have "0 < w" using weights_positive that(2,3) e by fastforce
    then show ?thesis
      using gen [OF that(1), of w 0] that(4) by (simp add: e credit_def sgn_if)
  qed
  have "score_for ''Tuberculosis (possible)'' (score_conditions [''cough'']) = Some 1"
    by code_simp
  with gen tab show ?thesis by blast
qed

theorem cough_partial_credit_witness:
  "''cough'' \<in> set [''cough''] \<and> ''persistent cough'' \<notin> set [''cough'']
   \<and> weight_step (set [''cough'']) ''persistent cough'' 3 0 = 1"
proof -
  have h: "''cough'' \<in> set [''cough''] \<and> ''persistent cough'' \<notin> set [''cough'']" by simp
  from cough_partial_credit h
  have "weight_step (set [''cough'']) ''persistent cough'' 3 0 = 0 + sgn 3 * (\<bar>3\<bar> div 2)"
    by blast
  then show ?thesis using h by simp
qed

text \<open>
  C6: the result of \<open>score_conditions\<close> is in descending order of score; for every score
  \<open>k\<close> the entries with that score appear exactly as they do in the list built by the loop,
  whose names run in the order of the \<open>CONDITIONS\<close> table (a stable sort); for the empty
  input every profile has score 0 and the result lists the profiles in table order.
\<close>

theorem score_conditions_sorted_stable:
  "sorted_wrt (\<lambda>a b. fst (snd b) \<le> fst (snd a)) (score_conditions selected)
   \<and> (\<forall>k. filter (\<lambda>r. fst (snd r) = k) (score_conditions selected)
          = filter (\<lambda>r. fst (snd r) = k) (conditions_loop (set selected) CONDITIONS []))
   \<and> map fst (conditions_loop (set selected) CONDITIONS []) = map fst CONDITIONS
   \<and> score_conditions [] = map (\<lambda>(cond, spec). (cond, 0, advice spec, threshold spec)) CONDITIONS"
proof (intro conjI allI)
  show "sorted_wrt (\<lambda>a b. fst (snd b) \<le> fst (snd a)) (score_conditions selected)"
    unfolding score_conditions_sort by (rule sorted_sort_reverse)
next
  fix k
  show "filter (\<lambda>r. fst (snd r) = k) (score_conditions selected)
          = filter (\<lambda>r. fst (snd r) = k) (conditions_loop (set selected) CONDITIONS [])"
    unfolding score_conditions_def Let_def by (rule stable_sort_reverse)
next
  show "map fst (conditions_loop (set selected) CONDITIONS []) = map fst CONDITIONS"
    by (simp only: conditions_loop_map append_Nil names_scored)
next
  show "score_conditions [] = map (\<lambda>(cond, spec). (cond, 0, advice spec, threshold spec)) CONDITIONS"
    by code_simp
qed

text \<open>
  C8: \<open>red_flag_messages\<close> never returns the same message text twice; its result is the
  list of fired messages with every message kept at its first occurrence only; the empty
  input gives the empty list. The function is total: the source has no operation that
  can raise on a list of strings, and the model has no error branch.
\<close>

theorem red_flag_messages_unique:
  "distinct (red_flag_messages selected)
   \<and> red_flag_messages selected = keep_first (fired_messages (set selected))
   \<and> red_flag_messages [] = []"
proof (intro conjI)
  show "distinct (red_flag_messages selected)"
    by (simp add: red_flag_messages_def distinct_dict_fromkeys)
next
  show "red_flag_messages selected = keep_first (fired_messages (set selected))"
    by (simp add: red_flag_messages_def dict_fromkeys_keep_first)
next
  show "red_flag_messages [] = []"
    by (simp add: red_flag_messages_def fired_messages_def RED_FLAGS_def flag_step_def)
qed

text \<open>
  C9: for every input that contains "dizziness", \<open>red_flag_messages\<close> includes the stroke
  warning; nothing else is required of the input.
\<close>

theorem dizziness_fires_stroke_warning:
  assumes "''dizziness'' \<in> set selected"
  shows "''Possible stroke '' @ EM_DASH @ '' seek emergency care immediately.''
           \<in> set (red_flag_messages selected)"
proof -
  have "(''sudden weakness or slurred speech'',
         ''Possible stroke '' @ EM_DASH @ '' seek emergency care immediately.'') \<in> set RED_FLAGS"
    by (simp add: RED_FLAGS_def)
  then have "''Possible stroke '' @ EM_DASH @ '' seek emergency care immediately.''
               \<in> set (flags_loop (set selected) RED_FLAGS [])"
    using assms by (rule flags_loop_dizziness)
  then show ?thesis
    using fired_messages_loop [of "set selected"] by (auto simp: set_red_flag_messages)
qed

theorem dizziness_fires_stroke_warning_witness:
  "''dizziness'' \<in> set [''dizziness'']
   \<and> ''Possible stroke '' @ EM_DASH @ '' seek emergency care immediately.''
        \<in> set (red_flag_messages [''dizziness''])
   \<and> red_flag_messages [''dizziness'']
        = [''Possible stroke '' @ EM_DASH @ '' seek emergency care immediately.'']"
proof -
  have h: "''dizziness'' \<in> set [''dizziness'']" by simp
  have "red_flag_messages [''dizziness'']
        = [''Possible stroke '' @ EM_DASH @ '' seek emergency care immediately.'']"
    by (simp add: red_flag_messages_def fired_messages_def RED_FLAGS_def flag_step_def)
  then show ?thesis
    using h dizziness_fires_stroke_warning [OF h] by simp
qed

text \<open>
  C10: the profile "Lower Respiratory Infection / Asthma" lists both breathing labels, so a
  single selected breathing symptom is counted twice. For the input
  \<open>{"difficulty breathing"}\<close> the five entries of its weight table contribute 0, 3, 0, 3, 0
  (the direct match and the full weight of "shortness of breath" through the bridge) and
  the score is 6; likewise for \<open>{"shortness of breath"}\<close>.
\<close>

theorem lower_respiratory_double_count:
  "score_for ''Lower Respiratory Infection / Asthma'' (score_conditions [''difficulty breathing'']) = Some 6
   \<and> score_for ''Lower Respiratory Infection / Asthma'' (score_conditions [''shortness of breath'']) = Some 6
   \<and> map_option (\<lambda>spec. map (credit (set [''difficulty breathing''])) (weights spec))
        (map_of CONDITIONS ''Lower Respiratory Infection / Asthma'')
       = Some [0, 3, 0, 3, 0]
   \<and> map_option (\<lambda>spec. map (credit (set [''shortness of breath''])) (weights spec))
        (map_of CONDITIONS ''Lower Respiratory Infection / Asthma'')
       = Some [0, 3, 0, 3, 0]"
  by code_simp

text \<open>
  C7: whenever the input contains "chest pain" together with "difficulty breathing" or
  "shortness of breath", the result contains the combination message, next to the
  chest-pain message and the message of each breathing label that is present; the
  combination message is none of the messages of \<open>RED_FLAGS\<close>. The input
  \<open>{"chest pain", "difficulty breathing"}\<close> yields exactly the chest-pain message, the
  breathing-difficulty message and the combination message.
\<close>

theorem compound_red_flag:
  "(\<forall>selected. ''chest pain'' \<in> set selected
        \<and> (''difficulty breathing'' \<in> set selected \<or> ''shortness of breath'' \<in> set selected) \<longrightarrow>
        COMBINATION \<in> set (red_flag_messages selected)
        \<and> ''Chest pain can indicate a heart or lung emergency.'' \<in> set (red_flag_messages selected)
        \<and> (''difficulty breathing'' \<in> set selected \<longrightarrow>
             ''Breathing difficulty is an emergency sign.'' \<in> set (red_flag_messages selected))
        \<and> (''shortness of breath'' \<in> set selected \<longrightarrow>
             ''Shortness of breath may require urgent care.'' \<in> set (red_flag_messages selected)))
   \<and> COMBINATION \<notin> snd ` set RED_FLAGS
   \<and> red_flag_messages [''chest pain'', ''difficulty breathing'']
       = [''Chest pain can indicate a heart or lung emergency.'',
          ''Breathing difficulty is an emergency sign.'',
          COMBINATION]"
proof (intro conjI allI impI)
  fix selected :: "string list"
  assume h: "''chest pain'' \<in> set selected
     \<and> (''difficulty breathing'' \<in> set selected \<or> ''shortness of breath'' \<in> set selected)"
  then show "COMBINATION \<in> set (red_flag_messages selected)"
    by (simp add: set_red_flag_messages fired_messages_def Let_def)
  have "(''chest pain'', ''Chest pain can indicate a heart or lung emergency.'') \<in> set RED_FLAGS"
    by (simp add: RED_FLAGS_def)
  then have "''Chest pain can indicate a heart or lung emergency.''
      \<in> set (flags_loop (set selected) RED_FLAGS [])"
    using h by (blast intro: flags_loop_direct)
  then show "''Chest pain can indicate a heart or lung emergency.'' \<in> set (red_flag_messages selected)"
    using fired_messages_loop [of "set selected"] by (auto simp: set_red_flag_messages)
next
  fix selected :: "string list"
  assume d: "''difficulty breathing'' \<in> set selected"
  have "(''difficulty breathing'', ''Breathing difficulty is an emergency sign.'') \<in> set RED_FLAGS"
    by (simp add: RED_FLAGS_def)
  then have "''Breathing difficulty is an emergency sign.''
      \<in> set (flags_loop (set selected) RED_FLAGS [])"
    using d by (rule flags_loop_direct)
  then show "''Breathing difficulty is an emergency sign.'' \<in> set (red_flag_messages selected)"
    using fired_messages_loop [of "set selected"] by (auto simp: set_red_flag_messages)
next
  fix selected :: "string list"
  assume d: "''shortness of breath'' \<in> set selected"
  have "(''shortness of breath'', ''Shortness of breath may require urgent care.'') \<in> set RED_FLAGS"
    by (simp add: RED_FLAGS_def)
  then have "''Shortness of breath may require urgent care.''
      \<in> set (flags_loop (set selected) RED_FLAGS [])"
    using d by (rule flags_loop_direct)
  then show "''Shortness of breath may require urgent care.'' \<in> set (red_flag_messages selected)"
    using fired_messages_loop [of "set selected"] by (auto simp: set_red_flag_messages)
next
  show "COMBINATION \<notin> snd ` set RED_FLAGS"
    by (simp add: RED_FLAGS_def)
next
  show "red_flag_messages [''chest pain'', ''difficulty breathing'']
       = [''Chest pain can indicate a heart or lung emergency.'',
          ''Breathing difficulty is an emergency sign.'',
          COMBINATION]"
    by (simp add: red_flag_messages_def fired_messages_def RED_FLAGS_def flag_step_def)
qed

theorem compound_red_flag_witness:
  "''chest pain'' \<in> set [''shortness of breath'', ''chest pain'']
   \<and> (''difficulty breathing'' \<in> set [''shortness of breath'', ''chest pain'']
        \<or> ''shortness of breath'' \<in> set [''shortness of breath'', ''chest pain''])
   \<and> COMBINATION \<in> set (red_flag_messages [''shortness of breath'', ''chest pain''])
   \<and> ''Shortness of breath may require urgent care.''
        \<in> set (red_flag_messages [''shortness of breath'', ''chest pain''])"
proof -
  have h: "''chest pain'' \<in> set [''shortness of breath'', ''chest pain'']
     \<and> (''difficulty breathing'' \<in> set [''shortness of breath'', ''chest pain'']
          \<or> ''shortness of breath'' \<in> set [''shortness of breath'', ''chest pain''])"
    by simp
  have s: "''shortness of breath'' \<in> set [''shortness of breath'', ''chest pain'']"
    by simp
  from compound_red_flag h s
  have "COMBINATION \<in> set (red_flag_messages [''shortness of breath'', ''chest pain''])
      \<and> ''Shortness of breath may require urgent care.''
        \<in> set (red_flag_messages [''shortness of breath'', ''chest pain''])"
    by blast
  with h show ?thesis by blast
qed

text \<open>
  C3: for every input \<open>selected\<close>, every label \<open>x\<close> and every profile named in
  \<open>CONDITIONS\<close>, the result carries a score for that profile on \<open>selected\<close> and on
  \<open>selected\<close> with \<open>x\<close> added, and the second is at least the first.
\<close>

theorem score_monotone:
  assumes "cond \<in> set (map fst CONDITIONS)"
  shows "\<exists>a b. score_for cond (score_conditions selected) = Some a
           \<and> score_for cond (score_conditions (x # selected)) = Some b \<and> a \<le> b"
proof -
  from profile_of_name [OF assms] obtain spec
    where m: "map_of CONDITIONS cond = Some spec" and i: "(cond, spec) \<in> set CONDITIONS"
    by blast
  have "\<forall>e \<in> set (weights spec). 0 < snd e"
    using weights_positive i by (metis snd_conv)
  then have "\<forall>e \<in> set (weights spec). 0 \<le> snd e"
    by (simp add: order_less_imp_le)
  moreover have "set selected \<subseteq> set (x # selected)" by (simp add: subset_insertI)
  ultimately have "weights_loop (set selected) (weights spec) 0
      \<le> weights_loop (set (x # selected)) (weights spec) 0"
    by (rule weights_loop_mono)
  then show ?thesis
    by (simp only: score_for_score_conditions m option.map) simp
qed

theorem score_monotone_witness:
  "''Malaria'' \<in> set (map fst CONDITIONS)
   \<and> score_for ''Malaria'' (score_conditions [''chills'']) = Some 2
   \<and> score_for ''Malaria'' (score_conditions (''fever'' # [''chills''])) = Some 5
   \<and> (\<exists>a b. score_for ''Malaria'' (score_conditions [''chills'']) = Some a
           \<and> score_for ''Malaria'' (score_conditions (''fever'' # [''chills''])) = Some b \<and> a \<le> b)"
proof -
  have h: "''Malaria'' \<in> set (map fst CONDITIONS)" by (simp add: CONDITIONS_def)
  have a: "score_for ''Malaria'' (score_conditions [''chills'']) = Some 2" by code_simp
  have b: "score_for ''Malaria'' (score_conditions (''fever'' # [''chills''])) = Some 5" by code_simp
  from score_monotone [OF h, of "[''chills'']" "''fever''"]
  have c: "\<exists>a b. score_for ''Malaria'' (score_conditions [''chills'']) = Some a
           \<and> score_for ''Malaria'' (score_conditions (''fever'' # [''chills''])) = Some b \<and> a \<le> b" .
  from h a b c show ?thesis by (intro conjI)
qed

text \<open>
  C1, as stated: a label outside \<open>SYMPTOMS\<close> matches no trigger and no weight entry. It
  fails: "sudden severe headache" is not in \<open>SYMPTOMS\<close> and gives the Stroke profile the
  score 3 (0 on the empty input), and "slurred speech" is not in \<open>SYMPTOMS\<close> and fires the
  stroke warning.
\<close>

theorem unknown_label_counterexample:
  "''sudden severe headache'' \<notin> set SYMPTOMS
   \<and> score_for (''Stroke ('' @ SIREN @ '' EMERGENCY suggestion)'')
        (score_conditions [''sudden severe headache'']) = Some 3
   \<and> score_for (''Stroke ('' @ SIREN @ '' EMERGENCY suggestion)'') (score_conditions []) = Some 0
   \<and> ''slurred speech'' \<notin> set SYMPTOMS
   \<and> red_flag_messages [''slurred speech'']
        = [''Possible stroke '' @ EM_DASH @ '' seek emergency care immediately.'']
   \<and> red_flag_messages [] = []"
proof (intro conjI)
  show "''sudden severe headache'' \<notin> set SYMPTOMS" by (simp add: SYMPTOMS_def)
  show "score_for (''Stroke ('' @ SIREN @ '' EMERGENCY suggestion)'')
        (score_conditions [''sudden severe headache'']) = Some 3" by code_simp
  show "score_for (''Stroke ('' @ SIREN @ '' EMERGENCY suggestion)'') (score_conditions []) = Some 0"
    by code_simp
  show "''slurred speech'' \<notin> set SYMPTOMS" by (simp add: SYMPTOMS_def)
  show "red_flag_messages [''slurred speech'']
        = [''Possible stroke '' @ EM_DASH @ '' seek emergency care immediately.'']"
    by (simp add: red_flag_messages_def fired_messages_def RED_FLAGS_def flag_step_def)
  show "red_flag_messages [] = []"
    by (simp add: red_flag_messages_def fired_messages_def RED_FLAGS_def flag_step_def)
qed

text \<open>
  C1, amended: a label that is neither in \<open>SYMPTOMS\<close> nor one of the six labels
  "persistent vomiting", "severe abdominal pain", "sudden weakness or slurred speech",
  "slurred speech", "sudden weakness", "sudden severe headache" is ignored by both
  functions: adding it to the input changes neither the result of \<open>score_conditions\<close> nor
  the result of \<open>red_flag_messages\<close>.
\<close>

theorem unlisted_label_ignored:
  assumes "x \<notin> set SYMPTOMS" and "x \<notin> UNLISTED"
  shows "score_conditions (x # selected) = score_conditions selected
       \<and> red_flag_messages (x # selected) = red_flag_messages selected"
proof -
  let ?A = "set (x # selected)" and ?B = "set selected"
  have agree: "(k \<in> ?A) = (k \<in> ?B)" if "k \<in> set SYMPTOMS \<union> UNLISTED" for k
  proof -
    from assms that have "k \<noteq> x" by (rule other_than_outsider)
    then show ?thesis unfolding list.set by (rule member_insert_other)
  qed
  have db: "(''difficulty breathing'' \<in> ?A) = (''difficulty breathing'' \<in> ?B)"
    by (rule agree, rule UnI1, rule compared_labels_known)
  have sob: "(''shortness of breath'' \<in> ?A) = (''shortness of breath'' \<in> ?B)"
    by (rule agree, rule UnI1, rule compared_labels_known)
  have cough: "(''cough'' \<in> ?A) = (''cough'' \<in> ?B)"
    by (rule agree, rule UnI1, rule compared_labels_known)
  have pc: "(''persistent cough'' \<in> ?A) = (''persistent cough'' \<in> ?B)"
    by (rule agree, rule UnI1, rule compared_labels_known)
  have vom: "(''vomiting'' \<in> ?A) = (''vomiting'' \<in> ?B)"
    by (rule agree, rule UnI1, rule compared_labels_known)
  have ap: "(''abdominal pain'' \<in> ?A) = (''abdominal pain'' \<in> ?B)"
    by (rule agree, rule UnI1, rule compared_labels_known)
  have diz: "(''dizziness'' \<in> ?A) = (''dizziness'' \<in> ?B)"
    by (rule agree, rule UnI1, rule compared_labels_known)
  have cp: "(''chest pain'' \<in> ?A) = (''chest pain'' \<in> ?B)"
    by (rule agree, rule UnI1, rule compared_labels_known)
  have ss: "(''slurred speech'' \<in> ?A) = (''slurred speech'' \<in> ?B)"
    by (rule agree, rule UnI2, rule compared_labels_unlisted)
  have sw: "(''sudden weakness'' \<in> ?A) = (''sudden weakness'' \<in> ?B)"
    by (rule agree, rule UnI2, rule compared_labels_unlisted)
  have same: "scored_of ?A c = scored_of ?B c" if c: "c \<in> set CONDITIONS" for c
  proof -
    have "\<forall>e \<in> set (weights (snd c)). (fst e \<in> ?A) = (fst e \<in> ?B)"
    proof
      fix e
      assume "e \<in> set (weights (snd c))"
      with weight_labels_known c have "fst e \<in> set SYMPTOMS \<union> UNLISTED"
        by (simp only: Ball_def)
      then show "(fst e \<in> ?A) = (fst e \<in> ?B)" by (rule agree)
    qed
    then have "weights_loop ?A (weights (snd c)) 0 = weights_loop ?B (weights (snd c)) 0"
      using db sob cough pc by (rule weights_loop_agree)
    then show ?thesis by (simp only: scored_of_def case_prod_beta)
  qed
  have "map (scored_of ?A) CONDITIONS = map (scored_of ?B) CONDITIONS"
    by (rule map_cong [OF refl]) (rule same)
  then have scores: "score_conditions (x # selected) = score_conditions selected"
    by (simp only: score_conditions_sort)
  have "\<forall>e \<in> set RED_FLAGS. (fst e \<in> ?A) = (fst e \<in> ?B)"
  proof
    fix e
    assume "e \<in> set RED_FLAGS"
    with flag_keys_known have "fst e \<in> set SYMPTOMS \<union> UNLISTED"
      by (simp only: Ball_def)
    then show "(fst e \<in> ?A) = (fst e \<in> ?B)" by (rule agree)
  qed
  then have "flags_loop ?A RED_FLAGS [] = flags_loop ?B RED_FLAGS []"
    using vom ap diz ss sw by (rule flags_loop_agree)
  then have "fired_messages ?A = fired_messages ?B"
    unfolding fired_messages_def cp db sob by (rule arg_cong)
  then have "red_flag_messages (x # selected) = red_flag_messages selected"
    by (simp only: red_flag_messages_def Let_def)
  with scores show ?thesis by (rule conjI)
qed

theorem unlisted_label_ignored_witness:
  "''itchy ears'' \<notin> set SYMPTOMS \<and> ''itchy ears'' \<notin> UNLISTED
   \<and> score_conditions (''itchy ears'' # [''fever'']) = score_conditions [''fever'']
   \<and> red_flag_messages (''itchy ears'' # [''fever'']) = red_flag_messages [''fever'']"
proof -
  have a: "''itchy ears'' \<notin> set SYMPTOMS" by (simp add: SYMPTOMS_def)
  have b: "''itchy ears'' \<notin> UNLISTED" by simp
  have c: "score_conditions (''itchy ears'' # [''fever'']) = score_conditions [''fever'']
     \<and> red_flag_messages (''itchy ears'' # [''fever'']) = red_flag_messages [''fever'']"
    using a b by (rule unlisted_label_ignored)
  show ?thesis by (rule conjI [OF a conjI [OF b c]])
qed

end
